theory Spec2Isabelle
  imports Main "HOL-Library.AList" "HOL-Library.Multiset"
begin

section \<open>The run-history view of the CodeChecker web client\<close>

text \<open>
  The development embeds \<^verbatim>\<open>www/scripts/codecheckerviewer/RunHistory.js\<close>:
  the grouping loop of \<^verbatim>\<open>renderRunHistoryTable\<close> (lines 48-59), the click
  handler \<^verbatim>\<open>onRunHistoryClick\<close> (lines 113-140) and \<^verbatim>\<open>_formatDate\<close>
  (lines 142-154). A leading underscore is not part of an Isabelle name, so
  \<^verbatim>\<open>_formatDate\<close>, \<^verbatim>\<open>_runNameFilter\<close>, ... appear without it.
\<close>

subsection \<open>JavaScript values used by the file\<close>

text \<open>
  The getters of a JavaScript \<^verbatim>\<open>Date\<close> return a Number: an integer for a valid
  date and \<^verbatim>\<open>NaN\<close> for an invalid one. Only these two kinds of Number occur.
\<close>

datatype Number = NaN | Finite int

text \<open>\<^verbatim>\<open>a + b\<close> on Numbers and \<^verbatim>\<open>a > b\<close>: every comparison with NaN is false.\<close>

fun plus_Number :: "Number \<Rightarrow> Number \<Rightarrow> Number" where
  "plus_Number (Finite a) (Finite b) = Finite (a + b)"
| "plus_Number _ _ = NaN"

fun greater_Number :: "Number \<Rightarrow> Number \<Rightarrow> bool" where
  "greater_Number (Finite a) (Finite b) = (b < a)"
| "greater_Number _ _ = False"

text \<open>Decimal digits of a natural number, most significant first.\<close>

fun digits :: "nat \<Rightarrow> string" where
  "digits n =
     (if n < 10 then [''0123456789'' ! n]
      else digits (n div 10) @ [''0123456789'' ! (n mod 10)])"

declare digits.simps [simp del]

text \<open>The string a Number turns into when it is concatenated with a string or joined.\<close>

fun ToString :: "Number \<Rightarrow> string" where
  "ToString NaN = ''NaN''"
| "ToString (Finite i) = (if i < 0 then ''-'' @ digits (nat (- i)) else digits (nat i))"

text \<open>\<^verbatim>\<open>Array.prototype.join\<close> on an array whose elements are already strings.\<close>

fun join :: "string \<Rightarrow> string list \<Rightarrow> string" where
  "join sep [] = []"
| "join sep [x] = x"
| "join sep (x # y # ys) = x @ sep @ join sep (y # ys)"

text \<open>
  \<^verbatim>\<open>s.replace(/c/g, d)\<close> for a pattern that is one literal character and a
  replacement that is one character: every occurrence is replaced (the \<^verbatim>\<open>g\<close> flag).
\<close>

definition replace_all :: "char \<Rightarrow> char \<Rightarrow> string \<Rightarrow> string" where
  "replace_all c d s = map (\<lambda>x. if x = c then d else x) s"

text \<open>
  A \<^verbatim>\<open>Date\<close> object as its getters show it: invalid, or the local-time fields
  year, month (zero-based), day of month, hours, minutes, seconds, milliseconds.
\<close>

datatype Date = InvalidDate | LocalTime int int int int int int int

fun getFullYear :: "Date \<Rightarrow> Number" where
  "getFullYear InvalidDate = NaN"
| "getFullYear (LocalTime y mo d h mi s ms) = Finite y"

fun getMonth :: "Date \<Rightarrow> Number" where
  "getMonth InvalidDate = NaN"
| "getMonth (LocalTime y mo d h mi s ms) = Finite mo"

fun getDate :: "Date \<Rightarrow> Number" where
  "getDate InvalidDate = NaN"
| "getDate (LocalTime y mo d h mi s ms) = Finite d"

fun getHours :: "Date \<Rightarrow> Number" where
  "getHours InvalidDate = NaN"
| "getHours (LocalTime y mo d h mi s ms) = Finite h"

fun getMinutes :: "Date \<Rightarrow> Number" where
  "getMinutes InvalidDate = NaN"
| "getMinutes (LocalTime y mo d h mi s ms) = Finite mi"

fun getSeconds :: "Date \<Rightarrow> Number" where
  "getSeconds InvalidDate = NaN"
| "getSeconds (LocalTime y mo d h mi s ms) = Finite s"

fun getMilliseconds :: "Date \<Rightarrow> Number" where
  "getMilliseconds InvalidDate = NaN"
| "getMilliseconds (LocalTime y mo d h mi s ms) = Finite ms"

text \<open>
  The fields of a \<^verbatim>\<open>Date\<close> that the engine can produce: a month index in 0..11, a
  day in 1..31, and a time of day within its usual ranges.
\<close>

fun wellformed_Date :: "Date \<Rightarrow> bool" where
  "wellformed_Date InvalidDate = True"
| "wellformed_Date (LocalTime y mo d h mi s ms) =
     (0 \<le> mo \<and> mo < 12 \<and> 1 \<le> d \<and> d < 32 \<and> 0 \<le> h \<and> h < 24 \<and>
      0 \<le> mi \<and> mi < 60 \<and> 0 \<le> s \<and> s < 60 \<and> 0 \<le> ms \<and> ms < 1000)"

subsection \<open>Run-history records\<close>

text \<open>
  A history entry as the service delivers it. \<^verbatim>\<open>versionTag\<close> and
  \<^verbatim>\<open>checkCommand\<close> are optional; the code tests \<^verbatim>\<open>versionTag\<close> for
  truthiness, and the empty string is falsy like a missing value.
\<close>

record RunHistoryData =
  runId :: int
  runName :: string
  time :: string
  user :: string
  versionTag :: "string option"
  checkCommand :: "string option"

fun truthy :: "string option \<Rightarrow> bool" where
  "truthy None = False"
| "truthy (Some s) = (s \<noteq> [])"

text \<open>The string an optional string turns into under \<^verbatim>\<open>+\<close>.\<close>

fun ToString_opt :: "string option \<Rightarrow> string" where
  "ToString_opt None = ''undefined''"
| "ToString_opt (Some s) = s"

subsection \<open>\<^verbatim>\<open>_formatDate\<close>\<close>

definition formatDate :: "Date \<Rightarrow> string" where
  "formatDate date =
     (let mm = plus_Number (getMonth date) (Finite 1);
          dd = getDate date
      in join ''-''
           [ToString (getFullYear date),
            (if greater_Number mm (Finite 9) then '''' else ''0'') @ ToString mm,
            (if greater_Number dd (Finite 9) then '''' else ''0'') @ ToString dd]
         @ '' '' @
         join '':''
           [ToString (getHours date),
            ToString (getMinutes date),
            ToString (plus_Number (getSeconds date)
               (if greater_Number (getMilliseconds date) (Finite 0)
                then Finite 1 else Finite 0))])"

subsection \<open>The grouping loop of \<^verbatim>\<open>renderRunHistoryTable\<close>\<close>

text \<open>
  The \<^verbatim>\<open>Date\<close> constructor applied to a string and \<^verbatim>\<open>util.getMonthName\<close> are
  not part of the file; they are the parameters \<open>parse\<close> and \<open>getMonthName\<close>.
  The object \<^verbatim>\<open>historyGroupByDate\<close> is an association list in insertion order,
  which is the order \<^verbatim>\<open>Object.keys\<close> enumerates its (non-numeric) keys in.
  Every key contains a space and a comma, so none is an array index and none names a
  property inherited from \<^verbatim>\<open>Object.prototype\<close>: a key that was never stored reads
  as \<^verbatim>\<open>undefined\<close>. The DOM construction of lines 61-110 is not modelled.
\<close>

definition groupDate :: "(string \<Rightarrow> Date) \<Rightarrow> (Number \<Rightarrow> string) \<Rightarrow> RunHistoryData \<Rightarrow> string" where
  "groupDate parse getMonthName data =
     (let date = parse (replace_all CHR '' '' CHR ''T'' (time data))
      in ToString (getDate date) @ '' '' @ getMonthName (getMonth date) @ '', ''
         @ ToString (getFullYear date))"

text \<open>
  One round of the \<^verbatim>\<open>forEach\<close> body: the bucket is created empty when the key
  is new, then the record is pushed on it.
\<close>

definition group_step ::
  "(string \<Rightarrow> Date) \<Rightarrow> (Number \<Rightarrow> string) \<Rightarrow> (string \<times> RunHistoryData list) list
     \<Rightarrow> RunHistoryData \<Rightarrow> (string \<times> RunHistoryData list) list" where
  "group_step parse getMonthName h data =
     (let k = groupDate parse getMonthName data;
          h1 = (if map_of h k = None then AList.update k [] h else h)
      in case map_of h1 k of
           None \<Rightarrow> h1
         | Some bucket \<Rightarrow> AList.update k (bucket @ [data]) h1)"

definition historyGroupByDate ::
  "(string \<Rightarrow> Date) \<Rightarrow> (Number \<Rightarrow> string) \<Rightarrow> RunHistoryData list
     \<Rightarrow> (string \<times> RunHistoryData list) list" where
  "historyGroupByDate parse getMonthName historyData =
     foldl (group_step parse getMonthName) [] historyData"

subsection \<open>\<^verbatim>\<open>onRunHistoryClick\<close>\<close>

text \<open>The members of \<^verbatim>\<open>CC_OBJECTS.DetectionStatus\<close> that the file names.\<close>

datatype DetectionStatus = NEW | UNRESOLVED | REOPENED

text \<open>
  The part of \<^verbatim>\<open>this.bugFilterView\<close> that the handler touches: whether each of
  the four filter objects exists. The detection-status filter, when it exists, carries
  its \<^verbatim>\<open>stateConverter\<close>.
\<close>

record BugFilterView =
  runNameFilter :: bool
  detectionStatusFilter :: "(DetectionStatus \<Rightarrow> string) option"
  detectionDateFilter :: bool
  runHistoryTagFilter :: bool

text \<open>The calls the handler makes on its collaborators, in the order it makes them.\<close>

datatype Effect =
    ClearAll
  | RunNameSelect string
  | DetectionStatusSelect string
  | InitFixedDateInterval string
  | RunHistoryTagSelect string
  | NotifyAll
  | SetStateValues "(string \<times> string option) list"

datatype Outcome = Completed | TypeError

text \<open>
  A method call on a filter object: \<open>Some\<close> of the call when the object exists, and
  \<open>None\<close> when it is \<^verbatim>\<open>undefined\<close>, where reading the method throws a TypeError
  before the arguments are evaluated.
\<close>

definition method_call :: "bool \<Rightarrow> Effect \<Rightarrow> Effect option" where
  "method_call present e = (if present then Some e else None)"

text \<open>
  Statements run in order; the first TypeError ends the handler, and the calls made
  before it stay made.
\<close>

fun exec :: "Effect option list \<Rightarrow> Outcome \<times> Effect list" where
  "exec [] = (Completed, [])"
| "exec (None # cs) = (TypeError, [])"
| "exec (Some e # cs) = (case exec cs of (out, es) \<Rightarrow> (out, e # es))"

definition onRunHistoryClick ::
  "(string \<Rightarrow> Date) \<Rightarrow> BugFilterView \<Rightarrow> RunHistoryData \<Rightarrow> Outcome \<times> Effect list" where
  "onRunHistoryClick parse bugFilterView item =
     exec
      ([Some ClearAll]
       @ (if runNameFilter bugFilterView then [Some (RunNameSelect (runName item))] else [])
       @ (if \<not> truthy (versionTag item) then
            map (\<lambda>status.
                   case detectionStatusFilter bugFilterView of
                     None \<Rightarrow> None
                   | Some stateConverter \<Rightarrow>
                       Some (DetectionStatusSelect (stateConverter status)))
                [NEW, UNRESOLVED, REOPENED]
            @ [let date = parse (replace_all CHR '' '' CHR ''T'' (time item))
               in method_call (detectionDateFilter bugFilterView)
                    (InitFixedDateInterval (formatDate date))]
          else
            [method_call (runHistoryTagFilter bugFilterView)
               (RunHistoryTagSelect (runName item @ '':'' @ ToString_opt (versionTag item)))])
       @ [Some NotifyAll, Some (SetStateValues [(''subtab'', None)])])"

subsection \<open>Notions used to state the properties\<close>

text \<open>The calendar day a \<^verbatim>\<open>Date\<close> falls on, as its getters report it.\<close>

definition calendarDay :: "Date \<Rightarrow> Number \<times> Number \<times> Number" where
  "calendarDay date = (getFullYear date, getMonth date, getDate date)"

text \<open>The calls that set a filter predicate, as opposed to reset, broadcast and navigation.\<close>

fun is_predicate :: "Effect \<Rightarrow> bool" where
  "is_predicate (RunNameSelect v) = True"
| "is_predicate (DetectionStatusSelect v) = True"
| "is_predicate (InitFixedDateInterval v) = True"
| "is_predicate (RunHistoryTagSelect v) = True"
| "is_predicate ClearAll = False"
| "is_predicate NotifyAll = False"
| "is_predicate (SetStateValues kvs) = False"

text \<open>
  The filter view offers the filter objects that the handler reads without a guard for
  this record: the tag filter for a tagged record, the detection-status and
  detection-date filters otherwise.
\<close>

definition supports :: "BugFilterView \<Rightarrow> RunHistoryData \<Rightarrow> bool" where
  "supports bugFilterView item =
     (if truthy (versionTag item) then runHistoryTagFilter bugFilterView
      else detectionStatusFilter bugFilterView \<noteq> None \<and> detectionDateFilter bugFilterView)"

subsection \<open>Concrete collaborators and records\<close>

text \<open>
  A fragment of the \<^verbatim>\<open>Date\<close> constructor of an engine that reads a date-time
  without zone as local time: the timestamps used below, and an invalid date for
  every other string.
\<close>

definition sampleDate :: "string \<Rightarrow> Date" where
  "sampleDate s =
     (if s = ''2024-06-05T10:15:30'' then LocalTime 2024 5 5 10 15 30 0
      else if s = ''2024-06-05T10:15:30.500'' then LocalTime 2024 5 5 10 15 30 500
      else if s = ''2024-06-06T08:00:00'' then LocalTime 2024 5 6 8 0 0 0
      else InvalidDate)"

text \<open>A constructor that, unlike \<open>sampleDate\<close>, also accepts one space-separated string.\<close>

definition lenientDate :: "string \<Rightarrow> Date" where
  "lenientDate s =
     (if s = ''2024-06-05 10:15:30'' then LocalTime 1999 0 1 0 0 0 0 else sampleDate s)"

definition sampleMonthName :: "Number \<Rightarrow> string" where
  "sampleMonthName n =
     (case n of
        NaN \<Rightarrow> ''undefined''
      | Finite i \<Rightarrow>
          if 0 \<le> i \<and> i < 12 then
            [''January'', ''February'', ''March'', ''April'', ''May'', ''June'', ''July'',
             ''August'', ''September'', ''October'', ''November'', ''December''] ! nat i
          else ''undefined'')"

fun sampleStateConverter :: "DetectionStatus \<Rightarrow> string" where
  "sampleStateConverter NEW = ''New''"
| "sampleStateConverter UNRESOLVED = ''Unresolved''"
| "sampleStateConverter REOPENED = ''Reopened''"

definition fullFilterView :: BugFilterView where
  "fullFilterView =
     \<lparr>runNameFilter = True, detectionStatusFilter = Some sampleStateConverter,
      detectionDateFilter = True, runHistoryTagFilter = True\<rparr>"

definition runFilterView :: BugFilterView where
  "runFilterView =
     \<lparr>runNameFilter = False, detectionStatusFilter = Some sampleStateConverter,
      detectionDateFilter = True, runHistoryTagFilter = True\<rparr>"

definition entryA :: RunHistoryData where
  "entryA = \<lparr>runId = 1, runName = ''acme'', time = ''2024-06-05 10:15:30'',
              user = ''kim'', versionTag = None, checkCommand = None\<rparr>"

definition entryB :: RunHistoryData where
  "entryB = \<lparr>runId = 1, runName = ''acme'', time = ''2024-06-05 10:15:30.500'',
              user = ''kim'', versionTag = Some ''v1.2'', checkCommand = None\<rparr>"

definition entryC :: RunHistoryData where
  "entryC = \<lparr>runId = 2, runName = ''zeta'', time = ''2024-06-06 08:00:00'',
              user = ''lee'', versionTag = None, checkCommand = Some ''check -b make''\<rparr>"

definition entryBad :: RunHistoryData where
  "entryBad = \<lparr>runId = 3, runName = ''acme'', time = ''last tuesday'',
                user = ''kim'', versionTag = None, checkCommand = None\<rparr>"

section \<open>Grouping by day\<close>

lemma update_new_bucket:
  "map_of h k = None \<Longrightarrow>
     mset (concat (map snd (AList.update k v h))) = mset v + mset (concat (map snd h))"
  by (induction h) (auto split: if_splits)

lemma update_push_bucket:
  "map_of h k = Some b \<Longrightarrow>
     mset (concat (map snd (AList.update k (b @ [x]) h))) = add_mset x (mset (concat (map snd h)))"
  by (induction h) (auto split: if_splits)

lemma group_step_mset:
  "mset (concat (map snd (group_step P M h x))) = add_mset x (mset (concat (map snd h)))"
proof (cases "map_of h (groupDate P M x)")
  case None
  then show ?thesis
    by (simp add: group_step_def Let_def AList.update_conv' update_new_bucket)
next
  case (Some b)
  then show ?thesis
    by (simp add: group_step_def Let_def update_push_bucket)
qed

lemma foldl_group_step_mset:
  "mset (concat (map snd (foldl (group_step P M) h xs))) = mset xs + mset (concat (map snd h))"
  by (induction xs arbitrary: h) (simp_all add: group_step_mset)

lemma group_step_map_of:
  "map_of (group_step P M h x) =
     (map_of h)(groupDate P M x \<mapsto>
        (case map_of h (groupDate P M x) of None \<Rightarrow> [] | Some b \<Rightarrow> b) @ [x])"
  by (cases "map_of h (groupDate P M x)")
     (simp_all add: group_step_def Let_def AList.update_conv')

lemma group_step_distinct:
  "distinct (map fst h) \<Longrightarrow> distinct (map fst (group_step P M h x))"
  by (cases "map_of h (groupDate P M x)")
     (simp_all add: group_step_def Let_def AList.update_conv' AList.distinct_update)

lemma foldl_group_step_distinct:
  "distinct (map fst h) \<Longrightarrow> distinct (map fst (foldl (group_step P M) h xs))"
  by (induction xs arbitrary: h) (simp_all add: group_step_distinct)

text \<open>
  The loop invariant: a bucket holds what it held before the loop, followed by the
  records of its day in the order the loop met them.
\<close>

lemma foldl_group_step_map_of:
  "map_of (foldl (group_step P M) h xs) L =
     (case map_of h L of
        None \<Rightarrow> (if \<exists>r \<in> set xs. groupDate P M r = L
                 then Some (filter (\<lambda>r. groupDate P M r = L) xs) else None)
      | Some b \<Rightarrow> Some (b @ filter (\<lambda>r. groupDate P M r = L) xs))"
proof (induction xs arbitrary: h)
  case Nil
  then show ?case by (simp split: option.splits)
next
  case (Cons x xs)
  show ?case
  proof (cases "groupDate P M x = L")
    case True
    then show ?thesis
      by (cases "map_of h L") (simp_all add: Cons.IH group_step_map_of)
  next
    case False
    then show ?thesis
      by (cases "map_of h L") (simp_all add: Cons.IH group_step_map_of)
  qed
qed

lemma historyGroupByDate_map_of:
  "map_of (historyGroupByDate P M hist) L =
     (if \<exists>r \<in> set hist. groupDate P M r = L
      then Some (filter (\<lambda>r. groupDate P M r = L) hist) else None)"
  by (simp add: historyGroupByDate_def foldl_group_step_map_of)

lemma historyGroupByDate_distinct: "distinct (map fst (historyGroupByDate P M hist))"
  by (simp add: historyGroupByDate_def foldl_group_step_distinct)

lemma historyGroupByDate_bucket:
  assumes "(L, b) \<in> set (historyGroupByDate P M hist)"
  shows "b = filter (\<lambda>r. groupDate P M r = L) hist"
proof -
  have "map_of (historyGroupByDate P M hist) L = Some b"
    using assms historyGroupByDate_distinct [of P M hist] by simp
  then show ?thesis
    by (simp add: historyGroupByDate_map_of split: if_splits)
qed

lemma groupDate_calendarDay:
  "calendarDay (P (replace_all CHR '' '' CHR ''T'' (time r1)))
     = calendarDay (P (replace_all CHR '' '' CHR ''T'' (time r2)))
   \<Longrightarrow> groupDate P M r1 = groupDate P M r2"
  by (simp add: groupDate_def calendarDay_def Let_def)

text \<open>The third scenario of the specification: two entries of 5 June and one of 6 June.\<close>

lemma historyGroupByDate_scenario:
  "historyGroupByDate sampleDate sampleMonthName [entryA, entryC, entryB]
     = [(''5 June, 2024'', [entryA, entryB]), (''6 June, 2024'', [entryC])]"
  by (simp add: historyGroupByDate_def group_step_def groupDate_def Let_def replace_all_def
      sampleDate_def sampleMonthName_def entryA_def entryB_def entryC_def digits.simps)

text \<open>
  Claim C6. The mapping built by the grouping loop holds every input record exactly
  once: the records of all buckets together are the input records, each as often as it
  occurs in the input, and the bucket sizes add up to the length of the input. This
  holds for every input sequence, whatever its timestamps parse to.
\<close>

theorem group_keeps_every_record:
  "mset (concat (map snd (historyGroupByDate P M hist))) = mset hist
   \<and> (\<Sum>bucket \<leftarrow> historyGroupByDate P M hist. length (snd bucket)) = length hist"
proof -
  have m: "mset (concat (map snd (historyGroupByDate P M hist))) = mset hist"
    by (simp add: historyGroupByDate_def foldl_group_step_mset)
  have "(\<Sum>bucket \<leftarrow> historyGroupByDate P M hist. length (snd bucket))
          = length (concat (map snd (historyGroupByDate P M hist)))"
    by (simp add: length_concat comp_def)
  also have "\<dots> = size (mset (concat (map snd (historyGroupByDate P M hist))))"
    by simp
  also have "\<dots> = length hist"
    by (simp only: m size_mset)
  finally show ?thesis using m by simp
qed

text \<open>
  Claim C7. Two records of the input whose timestamps fall on the same calendar day
  lie in one bucket; the day labels of the buckets are pairwise different; and every
  bucket is the subsequence of the input made of the records with its label, so
  its records keep the relative order of the input.
\<close>

theorem group_same_day_same_bucket:
  assumes "r1 \<in> set hist" and "r2 \<in> set hist"
    and "calendarDay (P (replace_all CHR '' '' CHR ''T'' (time r1)))
         = calendarDay (P (replace_all CHR '' '' CHR ''T'' (time r2)))"
  shows "(\<exists>L b. (L, b) \<in> set (historyGroupByDate P M hist) \<and> r1 \<in> set b \<and> r2 \<in> set b)
       \<and> distinct (map fst (historyGroupByDate P M hist))
       \<and> (\<forall>(L, b) \<in> set (historyGroupByDate P M hist).
             b = filter (\<lambda>r. groupDate P M r = L) hist)"
proof -
  define L where "L = groupDate P M r1"
  define b where "b = filter (\<lambda>r. groupDate P M r = L) hist"
  have k1: "groupDate P M r1 = L"
    by (simp add: L_def)
  have k2: "groupDate P M r2 = L"
    using assms(3) groupDate_calendarDay [of P r1 r2 M] by (simp add: L_def)
  have "\<exists>r \<in> set hist. groupDate P M r = L"
    using assms(1) k1 by (rule bexI [rotated])
  then have "map_of (historyGroupByDate P M hist) L = Some b"
    unfolding b_def historyGroupByDate_map_of by (rule if_P)
  then have "(L, b) \<in> set (historyGroupByDate P M hist)"
    by (rule map_of_SomeD)
  moreover have "r1 \<in> set b"
    unfolding b_def using assms(1) k1 by simp
  moreover have "r2 \<in> set b"
    unfolding b_def using assms(2) k2 by simp
  ultimately have ex:
    "\<exists>L b. (L, b) \<in> set (historyGroupByDate P M hist) \<and> r1 \<in> set b \<and> r2 \<in> set b"
    by (intro exI conjI)
  have order: "\<forall>(L, b) \<in> set (historyGroupByDate P M hist).
                 b = filter (\<lambda>r. groupDate P M r = L) hist"
  proof (rule ballI, rule prod.case_eq_if [THEN iffD2])
    fix p assume "p \<in> set (historyGroupByDate P M hist)"
    then have "(fst p, snd p) \<in> set (historyGroupByDate P M hist)" by simp
    then show "snd p = filter (\<lambda>r. groupDate P M r = fst p) hist"
      by (rule historyGroupByDate_bucket)
  qed
  show ?thesis
    by (intro conjI ex order historyGroupByDate_distinct)
qed

theorem group_same_day_same_bucket_witness:
  "entryA \<in> set [entryA, entryC, entryB] \<and> entryB \<in> set [entryA, entryC, entryB]
   \<and> calendarDay (sampleDate (replace_all CHR '' '' CHR ''T'' (time entryA)))
       = calendarDay (sampleDate (replace_all CHR '' '' CHR ''T'' (time entryB)))
   \<and> (\<exists>L b. (L, b) \<in> set (historyGroupByDate sampleDate sampleMonthName [entryA, entryC, entryB])
         \<and> entryA \<in> set b \<and> entryB \<in> set b)
   \<and> distinct (map fst (historyGroupByDate sampleDate sampleMonthName [entryA, entryC, entryB]))"
proof -
  have h1: "entryA \<in> set [entryA, entryC, entryB]" by simp
  have h2: "entryB \<in> set [entryA, entryC, entryB]" by simp
  have h3: "calendarDay (sampleDate (replace_all CHR '' '' CHR ''T'' (time entryA)))
              = calendarDay (sampleDate (replace_all CHR '' '' CHR ''T'' (time entryB)))"
    by (simp add: calendarDay_def sampleDate_def replace_all_def entryA_def entryB_def)
  note c = group_same_day_same_bucket [OF h1 h2 h3, of sampleMonthName]
  show ?thesis
    by (rule conjI [OF h1 conjI [OF h2 conjI [OF h3
          conjI [OF c [THEN conjunct1] c [THEN conjunct2, THEN conjunct1]]]]])
qed

section \<open>Projecting a history entry onto the filters\<close>

text \<open>The handler on each combination of record variant and filter objects.\<close>

lemma onRunHistoryClick_tagged:
  assumes "truthy (versionTag item)" and "runHistoryTagFilter f"
  shows "onRunHistoryClick P f item =
           (Completed,
            ClearAll # (if runNameFilter f then [RunNameSelect (runName item)] else [])
            @ [RunHistoryTagSelect (runName item @ '':'' @ ToString_opt (versionTag item)),
               NotifyAll, SetStateValues [(''subtab'', None)]])"
  using assms by (simp add: onRunHistoryClick_def method_call_def)

lemma onRunHistoryClick_untagged:
  assumes "\<not> truthy (versionTag item)" and "detectionStatusFilter f = Some conv"
    and "detectionDateFilter f"
  shows "onRunHistoryClick P f item =
           (Completed,
            ClearAll # (if runNameFilter f then [RunNameSelect (runName item)] else [])
            @ [DetectionStatusSelect (conv NEW), DetectionStatusSelect (conv UNRESOLVED),
               DetectionStatusSelect (conv REOPENED),
               InitFixedDateInterval (formatDate (P (replace_all CHR '' '' CHR ''T'' (time item)))),
               NotifyAll, SetStateValues [(''subtab'', None)]])"
  using assms by (simp add: onRunHistoryClick_def method_call_def Let_def)

lemma onRunHistoryClick_no_tag_filter:
  assumes "truthy (versionTag item)" and "\<not> runHistoryTagFilter f"
  shows "onRunHistoryClick P f item =
           (TypeError, ClearAll # (if runNameFilter f then [RunNameSelect (runName item)] else []))"
  using assms by (simp add: onRunHistoryClick_def method_call_def)

lemma onRunHistoryClick_no_status_filter:
  assumes "\<not> truthy (versionTag item)" and "detectionStatusFilter f = None"
  shows "onRunHistoryClick P f item =
           (TypeError, ClearAll # (if runNameFilter f then [RunNameSelect (runName item)] else []))"
  using assms by (simp add: onRunHistoryClick_def method_call_def)

lemma onRunHistoryClick_no_date_filter:
  assumes "\<not> truthy (versionTag item)" and "detectionStatusFilter f = Some conv"
    and "\<not> detectionDateFilter f"
  shows "onRunHistoryClick P f item =
           (TypeError,
            ClearAll # (if runNameFilter f then [RunNameSelect (runName item)] else [])
            @ [DetectionStatusSelect (conv NEW), DetectionStatusSelect (conv UNRESOLVED),
               DetectionStatusSelect (conv REOPENED)])"
  using assms by (simp add: onRunHistoryClick_def method_call_def Let_def)

lemma formatDate_InvalidDate: "formatDate InvalidDate = ''NaN-0NaN-0NaN NaN:NaN:NaN''"
  by (simp add: formatDate_def)

lemma formatDate_LocalTime:
  "formatDate (LocalTime y mo d h mi s ms) =
     ToString (Finite y) @ ''-'' @ (if 9 < mo + 1 then '''' else ''0'') @ ToString (Finite (mo + 1))
     @ ''-'' @ (if 9 < d then '''' else ''0'') @ ToString (Finite d) @ '' ''
     @ ToString (Finite h) @ '':'' @ ToString (Finite mi) @ '':''
     @ ToString (Finite (s + (if 0 < ms then 1 else 0)))"
  by (simp add: formatDate_def)


lemma replace_all_no_match: "c \<notin> set s \<Longrightarrow> replace_all c d s = s"
  by (induction s) (auto simp: replace_all_def)

lemma replace_all_separator:
  "CHR '' '' \<notin> set d \<Longrightarrow> CHR '' '' \<notin> set t \<Longrightarrow>
     replace_all CHR '' '' CHR ''T'' (d @ '' '' @ t) = d @ ''T'' @ t"
  using replace_all_no_match [of "CHR '' ''" d "CHR ''T''"]
        replace_all_no_match [of "CHR '' ''" t "CHR ''T''"]
  by (simp add: replace_all_def)

lemma groupDate_cong:
  "P (replace_all CHR '' '' CHR ''T'' (time r)) = Q (replace_all CHR '' '' CHR ''T'' (time r))
   \<Longrightarrow> groupDate P M r = groupDate Q M r"
  by (simp add: groupDate_def)

lemma foldl_group_step_cong:
  "(\<And>r. r \<in> set xs \<Longrightarrow> groupDate P M r = groupDate Q M r)
   \<Longrightarrow> foldl (group_step P M) h xs = foldl (group_step Q M) h xs"
proof (induction xs arbitrary: h)
  case Nil
  then show ?case by simp
next
  case (Cons x xs)
  have "group_step P M h x = group_step Q M h x"
    using Cons.prems [of x] by (simp add: group_step_def)
  then show ?case
    using Cons.IH Cons.prems by simp
qed

lemma onRunHistoryClick_cong:
  "P (replace_all CHR '' '' CHR ''T'' (time item)) = Q (replace_all CHR '' '' CHR ''T'' (time item))
   \<Longrightarrow> onRunHistoryClick P f item = onRunHistoryClick Q f item"
  by (simp add: onRunHistoryClick_def)

lemma onRunHistoryClick_tagged_time:
  "truthy (versionTag item) \<Longrightarrow>
     onRunHistoryClick P f item = onRunHistoryClick Q f (item\<lparr>time := t\<rparr>)"
  by (simp add: onRunHistoryClick_def)

text \<open>The first scenario of the specification, with every filter object present.\<close>

lemma onRunHistoryClick_scenario:
  "onRunHistoryClick sampleDate fullFilterView entryA =
     (Completed,
      [ClearAll, RunNameSelect ''acme'', DetectionStatusSelect ''New'',
       DetectionStatusSelect ''Unresolved'', DetectionStatusSelect ''Reopened'',
       InitFixedDateInterval ''2024-06-05 10:15:30'', NotifyAll,
       SetStateValues [(''subtab'', None)]])"
  by (simp add: onRunHistoryClick_def method_call_def fullFilterView_def entryA_def
      sampleDate_def replace_all_def formatDate_def digits.simps)

text \<open>
  Claim C1, as stated, fails. For the tagged entry of the second scenario and a filter
  view that has a run-name filter, the handler sets two predicates, the run name and the
  composite tag, not the tag alone.
\<close>

theorem project_tagged_single_predicate_counterexample:
  "truthy (versionTag entryB)
   \<and> filter is_predicate (snd (onRunHistoryClick sampleDate fullFilterView entryB))
       = [RunNameSelect ''acme'', RunHistoryTagSelect ''acme:v1.2'']
   \<and> filter is_predicate (snd (onRunHistoryClick sampleDate fullFilterView entryB))
       \<noteq> [RunHistoryTagSelect ''acme:v1.2'']"
  by (simp add: onRunHistoryClick_def method_call_def fullFilterView_def entryB_def)

text \<open>
  Claim C1, amended. For a record with a non-empty \<^verbatim>\<open>versionTag\<close> and a filter view
  with a tag filter, the handler completes and the predicates it sets are: the run name,
  if and only if the view has a run-name filter, and then the composite tag selector
  \<^verbatim>\<open>runName + ":" + versionTag\<close>. No detection-status and no detection-date
  predicate is set.
\<close>

theorem project_tagged_predicates:
  assumes "versionTag item = Some tag" and "tag \<noteq> []" and "runHistoryTagFilter f"
  shows "fst (onRunHistoryClick P f item) = Completed
       \<and> filter is_predicate (snd (onRunHistoryClick P f item))
           = (if runNameFilter f then [RunNameSelect (runName item)] else [])
             @ [RunHistoryTagSelect (runName item @ '':'' @ tag)]"
proof -
  have "truthy (versionTag item)"
    using assms(1,2) by simp
  then show ?thesis
    using assms(1,3) by (simp add: onRunHistoryClick_tagged)
qed

text \<open>The amended claim C1 at the tagged entry of the second scenario.\<close>

theorem project_tagged_predicates_witness:
  "versionTag entryB = Some ''v1.2'' \<and> ''v1.2'' \<noteq> [] \<and> runHistoryTagFilter fullFilterView
   \<and> fst (onRunHistoryClick sampleDate fullFilterView entryB) = Completed
   \<and> filter is_predicate (snd (onRunHistoryClick sampleDate fullFilterView entryB))
       = [RunNameSelect ''acme'', RunHistoryTagSelect ''acme:v1.2'']"
proof -
  have h1: "versionTag entryB = Some ''v1.2''" by (simp add: entryB_def)
  have h2: "''v1.2'' \<noteq> []" by simp
  have h3: "runHistoryTagFilter fullFilterView" by (simp add: fullFilterView_def)
  show ?thesis
    using h1 h2 h3 project_tagged_predicates [OF h1 h2 h3, of sampleDate]
    by (simp add: fullFilterView_def entryB_def)
qed

text \<open>
  Claim C8, as stated, fails. For the untagged entry of the first scenario and a filter
  view without a run-name filter, the handler sets the three detection statuses and the
  detection date, and no run-name predicate.
\<close>

theorem project_untagged_three_predicates_counterexample:
  "\<not> truthy (versionTag entryA)
   \<and> filter is_predicate (snd (onRunHistoryClick sampleDate runFilterView entryA))
       = [DetectionStatusSelect ''New'', DetectionStatusSelect ''Unresolved'',
          DetectionStatusSelect ''Reopened'', InitFixedDateInterval ''2024-06-05 10:15:30'']
   \<and> RunNameSelect (runName entryA) \<notin> set (snd (onRunHistoryClick sampleDate runFilterView entryA))"
  by (simp add: onRunHistoryClick_def method_call_def runFilterView_def entryA_def
      sampleDate_def replace_all_def formatDate_def digits.simps)

text \<open>
  Claim C8, amended. For a record without a (non-empty) \<^verbatim>\<open>versionTag\<close> and a filter
  view with detection-status and detection-date filters, the handler completes and the
  predicates it sets are: the run name, if and only if the view has a run-name filter;
  the detection statuses NEW, UNRESOLVED and REOPENED, each through
  \<^verbatim>\<open>stateConverter\<close>; and the detection date fixed to the instant \<^verbatim>\<open>_formatDate\<close>
  renders from the parsed, normalized \<^verbatim>\<open>time\<close>. No tag predicate is set.
\<close>

theorem project_untagged_predicates:
  assumes "\<not> truthy (versionTag item)" and "detectionStatusFilter f = Some stateConverter"
    and "detectionDateFilter f"
  shows "fst (onRunHistoryClick P f item) = Completed
       \<and> filter is_predicate (snd (onRunHistoryClick P f item))
           = (if runNameFilter f then [RunNameSelect (runName item)] else [])
             @ [DetectionStatusSelect (stateConverter NEW),
                DetectionStatusSelect (stateConverter UNRESOLVED),
                DetectionStatusSelect (stateConverter REOPENED),
                InitFixedDateInterval
                  (formatDate (P (replace_all CHR '' '' CHR ''T'' (time item))))]"
  by (simp add: onRunHistoryClick_untagged [OF assms])

text \<open>The amended claim C8 at the untagged entry of the first scenario.\<close>

theorem project_untagged_predicates_witness:
  "\<not> truthy (versionTag entryA) \<and> detectionStatusFilter fullFilterView = Some sampleStateConverter
   \<and> detectionDateFilter fullFilterView
   \<and> fst (onRunHistoryClick sampleDate fullFilterView entryA) = Completed
   \<and> filter is_predicate (snd (onRunHistoryClick sampleDate fullFilterView entryA))
       = [RunNameSelect ''acme'', DetectionStatusSelect ''New'', DetectionStatusSelect ''Unresolved'',
          DetectionStatusSelect ''Reopened'', InitFixedDateInterval ''2024-06-05 10:15:30'']"
proof -
  have h1: "\<not> truthy (versionTag entryA)" by (simp add: entryA_def)
  have h2: "detectionStatusFilter fullFilterView = Some sampleStateConverter"
    by (simp add: fullFilterView_def)
  have h3: "detectionDateFilter fullFilterView" by (simp add: fullFilterView_def)
  have d: "formatDate (sampleDate (replace_all CHR '' '' CHR ''T'' (time entryA)))
             = ''2024-06-05 10:15:30''"
    by (simp add: entryA_def sampleDate_def replace_all_def formatDate_def digits.simps)
  have n: "runNameFilter fullFilterView" "runName entryA = ''acme''"
    by (simp_all add: fullFilterView_def entryA_def)
  show ?thesis
    using h1 h2 h3 project_untagged_predicates [OF h1 h2 h3, of sampleDate] by (simp add: d n)
qed

text \<open>
  Claim C5. Whenever the filter view has the filter objects of the record's variant, the
  handler completes and its calls are exactly these, in this order: first the reset
  \<^verbatim>\<open>clearAll\<close>; then the predicates of the variant, that is the run name (when the
  view has a run-name filter) followed by the composite tag for a tagged record, or by
  the statuses NEW, UNRESOLVED, REOPENED and the fixed detection date for an untagged
  one; then \<^verbatim>\<open>notifyAll\<close>; and last \<^verbatim>\<open>hashHelper.setStateValues({subtab : null})\<close>.
  The reset and the broadcast each occur once in the whole sequence.
\<close>

theorem project_effect_order:
  assumes "supports f item"
  shows "(truthy (versionTag item) \<longrightarrow>
            onRunHistoryClick P f item =
              (Completed,
               [ClearAll]
               @ (if runNameFilter f then [RunNameSelect (runName item)] else [])
               @ [RunHistoryTagSelect (runName item @ '':'' @ ToString_opt (versionTag item))]
               @ [NotifyAll, SetStateValues [(''subtab'', None)]]))
       \<and> (\<not> truthy (versionTag item) \<longrightarrow>
            (\<exists>stateConverter. detectionStatusFilter f = Some stateConverter \<and>
               onRunHistoryClick P f item =
                 (Completed,
                  [ClearAll]
                  @ (if runNameFilter f then [RunNameSelect (runName item)] else [])
                  @ [DetectionStatusSelect (stateConverter NEW),
                     DetectionStatusSelect (stateConverter UNRESOLVED),
                     DetectionStatusSelect (stateConverter REOPENED),
                     InitFixedDateInterval
                       (formatDate (P (replace_all CHR '' '' CHR ''T'' (time item))))]
                  @ [NotifyAll, SetStateValues [(''subtab'', None)]])))
       \<and> filter (\<lambda>e. e = ClearAll) (snd (onRunHistoryClick P f item)) = [ClearAll]
       \<and> filter (\<lambda>e. e = NotifyAll) (snd (onRunHistoryClick P f item)) = [NotifyAll]"
proof (cases "truthy (versionTag item)")
  case True
  then have "runHistoryTagFilter f"
    using assms by (simp add: supports_def)
  then show ?thesis
    using True by (simp add: onRunHistoryClick_tagged)
next
  case False
  then obtain conv where "detectionStatusFilter f = Some conv" and "detectionDateFilter f"
    using assms by (auto simp: supports_def)
  then show ?thesis
    using False by (simp add: onRunHistoryClick_untagged)
qed

text \<open>Claim C5 at an untagged and at a tagged entry, with the calls written out.\<close>

theorem project_effect_order_witness:
  "supports fullFilterView entryA
   \<and> onRunHistoryClick sampleDate fullFilterView entryA =
       (Completed,
        [ClearAll, RunNameSelect ''acme'', DetectionStatusSelect ''New'',
         DetectionStatusSelect ''Unresolved'', DetectionStatusSelect ''Reopened'',
         InitFixedDateInterval ''2024-06-05 10:15:30'', NotifyAll,
         SetStateValues [(''subtab'', None)]])
   \<and> supports fullFilterView entryB
   \<and> onRunHistoryClick sampleDate fullFilterView entryB =
       (Completed,
        [ClearAll, RunNameSelect ''acme'', RunHistoryTagSelect ''acme:v1.2'', NotifyAll,
         SetStateValues [(''subtab'', None)]])"
proof -
  have h1: "supports fullFilterView entryA"
    by (simp add: supports_def fullFilterView_def entryA_def)
  have h2: "supports fullFilterView entryB"
    by (simp add: supports_def fullFilterView_def entryB_def)
  have d: "formatDate (sampleDate (replace_all CHR '' '' CHR ''T'' (time entryA)))
             = ''2024-06-05 10:15:30''"
    by (simp add: entryA_def sampleDate_def replace_all_def formatDate_def digits.simps)
  have a1: "\<not> truthy (versionTag entryA)" and a2: "truthy (versionTag entryB)"
    and n: "runName entryA = ''acme''" "runName entryB = ''acme''"
      "ToString_opt (versionTag entryB) = ''v1.2''"
    by (simp_all add: entryA_def entryB_def)
  have f: "runNameFilter fullFilterView"
    "detectionStatusFilter fullFilterView = Some sampleStateConverter"
    by (simp_all add: fullFilterView_def)
  from project_effect_order [OF h1, of sampleDate, THEN conjunct2, THEN conjunct1, rule_format, OF a1]
  obtain conv where c: "detectionStatusFilter fullFilterView = Some conv"
    and t: "onRunHistoryClick sampleDate fullFilterView entryA =
                 (Completed,
                  [ClearAll]
                  @ (if runNameFilter fullFilterView then [RunNameSelect (runName entryA)] else [])
                  @ [DetectionStatusSelect (conv NEW),
                     DetectionStatusSelect (conv UNRESOLVED),
                     DetectionStatusSelect (conv REOPENED),
                     InitFixedDateInterval
                       (formatDate (sampleDate (replace_all CHR '' '' CHR ''T'' (time entryA))))]
                  @ [NotifyAll, SetStateValues [(''subtab'', None)]])"
    by (elim exE conjE)
  have "conv = sampleStateConverter"
    using c f(2) by simp
  then have t1: "onRunHistoryClick sampleDate fullFilterView entryA =
       (Completed,
        [ClearAll, RunNameSelect ''acme'', DetectionStatusSelect ''New'',
         DetectionStatusSelect ''Unresolved'', DetectionStatusSelect ''Reopened'',
         InitFixedDateInterval ''2024-06-05 10:15:30'', NotifyAll,
         SetStateValues [(''subtab'', None)]])"
    using t by (simp add: d n f)
  have t2: "onRunHistoryClick sampleDate fullFilterView entryB =
       (Completed,
        [ClearAll, RunNameSelect ''acme'', RunHistoryTagSelect ''acme:v1.2'', NotifyAll,
         SetStateValues [(''subtab'', None)]])"
    using project_effect_order [OF h2, of sampleDate, THEN conjunct1, rule_format, OF a2]
    by (simp add: n f)
  show ?thesis
    by (rule conjI [OF h1 conjI [OF t1 conjI [OF h2 t2]]])
qed

text \<open>
  The handler completes exactly when the filter objects of the record's variant exist;
  the run-name filter plays no part in that.
\<close>

lemma onRunHistoryClick_Completed_iff:
  "(fst (onRunHistoryClick P f item) = Completed) = supports f item"
proof (cases "truthy (versionTag item)")
  case True
  then show ?thesis
    by (cases "runHistoryTagFilter f")
       (simp_all add: supports_def onRunHistoryClick_tagged onRunHistoryClick_no_tag_filter)
next
  case False
  show ?thesis
  proof (cases "detectionStatusFilter f")
    case None
    then show ?thesis
      using False by (simp add: supports_def onRunHistoryClick_no_status_filter)
  next
    case (Some conv)
    then show ?thesis
      using False
      by (cases "detectionDateFilter f")
         (simp_all add: supports_def onRunHistoryClick_untagged onRunHistoryClick_no_date_filter)
  qed
qed

text \<open>
  Claim C10. Without a run-name filter the handler does not fail on that account: it
  makes the reset, the predicate calls of the variant other than the run name, one
  \<^verbatim>\<open>notifyAll\<close> and the \<^verbatim>\<open>subtab\<close> clear. The other three filter objects are read
  without a guard: a missing tag filter (tagged record), or a missing detection-status
  or detection-date filter (untagged record), ends the handler with a TypeError before
  \<^verbatim>\<open>notifyAll\<close>. For any filter view \<open>g\<close>, with or without a run-name filter, the
  handler completes exactly when the filter objects of the variant exist.
\<close>

theorem project_without_run_name_filter:
  assumes "\<not> runNameFilter f"
  shows "onRunHistoryClick P f item =
          (if truthy (versionTag item) then
             (if runHistoryTagFilter f then
                (Completed,
                 [ClearAll,
                  RunHistoryTagSelect (runName item @ '':'' @ ToString_opt (versionTag item)),
                  NotifyAll, SetStateValues [(''subtab'', None)]])
              else (TypeError, [ClearAll]))
           else
             (case detectionStatusFilter f of
                None \<Rightarrow> (TypeError, [ClearAll])
              | Some stateConverter \<Rightarrow>
                  if detectionDateFilter f then
                    (Completed,
                     [ClearAll,
                      DetectionStatusSelect (stateConverter NEW),
                      DetectionStatusSelect (stateConverter UNRESOLVED),
                      DetectionStatusSelect (stateConverter REOPENED),
                      InitFixedDateInterval
                        (formatDate (P (replace_all CHR '' '' CHR ''T'' (time item)))),
                      NotifyAll, SetStateValues [(''subtab'', None)]])
                  else
                    (TypeError,
                     [ClearAll,
                      DetectionStatusSelect (stateConverter NEW),
                      DetectionStatusSelect (stateConverter UNRESOLVED),
                      DetectionStatusSelect (stateConverter REOPENED)])))
       \<and> (fst (onRunHistoryClick P g item) = Completed) = supports g item"
proof (rule conjI)
  show "(fst (onRunHistoryClick P g item) = Completed) = supports g item"
    by (rule onRunHistoryClick_Completed_iff)
next
  show "onRunHistoryClick P f item =
          (if truthy (versionTag item) then
             (if runHistoryTagFilter f then
                (Completed,
                 [ClearAll,
                  RunHistoryTagSelect (runName item @ '':'' @ ToString_opt (versionTag item)),
                  NotifyAll, SetStateValues [(''subtab'', None)]])
              else (TypeError, [ClearAll]))
           else
             (case detectionStatusFilter f of
                None \<Rightarrow> (TypeError, [ClearAll])
              | Some stateConverter \<Rightarrow>
                  if detectionDateFilter f then
                    (Completed,
                     [ClearAll,
                      DetectionStatusSelect (stateConverter NEW),
                      DetectionStatusSelect (stateConverter UNRESOLVED),
                      DetectionStatusSelect (stateConverter REOPENED),
                      InitFixedDateInterval
                        (formatDate (P (replace_all CHR '' '' CHR ''T'' (time item)))),
                      NotifyAll, SetStateValues [(''subtab'', None)]])
                  else
                    (TypeError,
                     [ClearAll,
                      DetectionStatusSelect (stateConverter NEW),
                      DetectionStatusSelect (stateConverter UNRESOLVED),
                      DetectionStatusSelect (stateConverter REOPENED)])))"
  proof (cases "truthy (versionTag item)")
    case True
    then show ?thesis
      using assms
      by (cases "runHistoryTagFilter f")
         (simp_all add: onRunHistoryClick_tagged onRunHistoryClick_no_tag_filter)
  next
    case False
    show ?thesis
    proof (cases "detectionStatusFilter f")
      case None
      then show ?thesis
        using False assms by (simp add: onRunHistoryClick_no_status_filter)
    next
      case (Some conv)
      then show ?thesis
        using False assms
        by (cases "detectionDateFilter f")
           (simp_all add: onRunHistoryClick_untagged onRunHistoryClick_no_date_filter)
    qed
  qed
qed

text \<open>Claim C10 at a filter view without run-name filter, for both variants.\<close>

theorem project_without_run_name_filter_witness:
  "\<not> runNameFilter runFilterView
   \<and> onRunHistoryClick sampleDate runFilterView entryA =
       (Completed,
        [ClearAll, DetectionStatusSelect ''New'', DetectionStatusSelect ''Unresolved'',
         DetectionStatusSelect ''Reopened'', InitFixedDateInterval ''2024-06-05 10:15:30'',
         NotifyAll, SetStateValues [(''subtab'', None)]])
   \<and> onRunHistoryClick sampleDate runFilterView entryB =
       (Completed,
        [ClearAll, RunHistoryTagSelect ''acme:v1.2'', NotifyAll,
         SetStateValues [(''subtab'', None)]])"
proof -
  have h: "\<not> runNameFilter runFilterView" by (simp add: runFilterView_def)
  have d: "formatDate (sampleDate (replace_all CHR '' '' CHR ''T'' (time entryA)))
             = ''2024-06-05 10:15:30''"
    by (simp add: entryA_def sampleDate_def replace_all_def formatDate_def digits.simps)
  have a: "\<not> truthy (versionTag entryA)" "truthy (versionTag entryB)"
    "runName entryB = ''acme''" "ToString_opt (versionTag entryB) = ''v1.2''"
    by (simp_all add: entryA_def entryB_def)
  have f: "detectionStatusFilter runFilterView = Some sampleStateConverter"
    "detectionDateFilter runFilterView" "runHistoryTagFilter runFilterView"
    by (simp_all add: runFilterView_def)
  show ?thesis
    using h project_without_run_name_filter [OF h, of sampleDate entryA, THEN conjunct1]
      project_without_run_name_filter [OF h, of sampleDate entryB, THEN conjunct1]
    by (simp add: d a f)
qed

text \<open>
  Claim C4, as stated, fails. The \<^verbatim>\<open>time\<close> of this untagged entry does not parse, yet
  the handler completes: it sets the run name, the three statuses and a detection date
  rendered from the invalid date, broadcasts and clears the \<^verbatim>\<open>subtab\<close>.
\<close>

theorem project_unparseable_time_fails_counterexample:
  "\<not> truthy (versionTag entryBad)
   \<and> sampleDate (replace_all CHR '' '' CHR ''T'' (time entryBad)) = InvalidDate
   \<and> onRunHistoryClick sampleDate fullFilterView entryBad =
       (Completed,
        [ClearAll, RunNameSelect ''acme'', DetectionStatusSelect ''New'',
         DetectionStatusSelect ''Unresolved'', DetectionStatusSelect ''Reopened'',
         InitFixedDateInterval ''NaN-0NaN-0NaN NaN:NaN:NaN'', NotifyAll,
         SetStateValues [(''subtab'', None)]])"
  by (simp add: onRunHistoryClick_def method_call_def fullFilterView_def entryBad_def
      sampleDate_def replace_all_def formatDate_def)

text \<open>
  Claim C4, amended. For an untagged record whose \<^verbatim>\<open>time\<close> parses to an invalid date,
  the handler (given detection-status and detection-date filters) does not fail: it
  completes with every call of the variant, the detection date being the text
  \<^verbatim>\<open>NaN-0NaN-0NaN NaN:NaN:NaN\<close>. For a tagged record, outcome and calls do not depend
  on \<^verbatim>\<open>time\<close> or on the parser at all.
\<close>

theorem project_unparseable_time:
  "(\<not> truthy (versionTag item) \<and> P (replace_all CHR '' '' CHR ''T'' (time item)) = InvalidDate
      \<and> detectionStatusFilter f = Some stateConverter \<and> detectionDateFilter f
    \<longrightarrow> onRunHistoryClick P f item =
          (Completed,
           ClearAll # (if runNameFilter f then [RunNameSelect (runName item)] else [])
           @ [DetectionStatusSelect (stateConverter NEW),
              DetectionStatusSelect (stateConverter UNRESOLVED),
              DetectionStatusSelect (stateConverter REOPENED),
              InitFixedDateInterval ''NaN-0NaN-0NaN NaN:NaN:NaN'',
              NotifyAll, SetStateValues [(''subtab'', None)]]))
   \<and> (truthy (versionTag item)
    \<longrightarrow> onRunHistoryClick P f item = onRunHistoryClick Q f (item\<lparr>time := t\<rparr>))"
proof (intro conjI impI)
  assume a: "\<not> truthy (versionTag item)
      \<and> P (replace_all CHR '' '' CHR ''T'' (time item)) = InvalidDate
      \<and> detectionStatusFilter f = Some stateConverter \<and> detectionDateFilter f"
  then have "\<not> truthy (versionTag item)" "detectionStatusFilter f = Some stateConverter"
    "detectionDateFilter f"
    by simp_all
  from onRunHistoryClick_untagged [OF this, of P] a
  show "onRunHistoryClick P f item =
          (Completed,
           ClearAll # (if runNameFilter f then [RunNameSelect (runName item)] else [])
           @ [DetectionStatusSelect (stateConverter NEW),
              DetectionStatusSelect (stateConverter UNRESOLVED),
              DetectionStatusSelect (stateConverter REOPENED),
              InitFixedDateInterval ''NaN-0NaN-0NaN NaN:NaN:NaN'',
              NotifyAll, SetStateValues [(''subtab'', None)]])"
    by (simp add: formatDate_InvalidDate)
next
  assume "truthy (versionTag item)"
  then show "onRunHistoryClick P f item = onRunHistoryClick Q f (item\<lparr>time := t\<rparr>)"
    by (rule onRunHistoryClick_tagged_time)
qed

text \<open>The amended claim C4 at an unparseable untagged entry and at a tagged entry.\<close>

theorem project_unparseable_time_witness:
  "\<not> truthy (versionTag entryBad)
   \<and> sampleDate (replace_all CHR '' '' CHR ''T'' (time entryBad)) = InvalidDate
   \<and> detectionStatusFilter fullFilterView = Some sampleStateConverter
   \<and> detectionDateFilter fullFilterView
   \<and> onRunHistoryClick sampleDate fullFilterView entryBad =
       (Completed,
        [ClearAll, RunNameSelect ''acme'', DetectionStatusSelect ''New'',
         DetectionStatusSelect ''Unresolved'', DetectionStatusSelect ''Reopened'',
         InitFixedDateInterval ''NaN-0NaN-0NaN NaN:NaN:NaN'', NotifyAll,
         SetStateValues [(''subtab'', None)]])
   \<and> truthy (versionTag entryB)
   \<and> onRunHistoryClick sampleDate fullFilterView entryB
       = onRunHistoryClick lenientDate fullFilterView (entryB\<lparr>time := ''last tuesday''\<rparr>)"
proof -
  have h: "\<not> truthy (versionTag entryBad)
      \<and> sampleDate (replace_all CHR '' '' CHR ''T'' (time entryBad)) = InvalidDate
      \<and> detectionStatusFilter fullFilterView = Some sampleStateConverter
      \<and> detectionDateFilter fullFilterView"
    by (simp add: entryBad_def sampleDate_def replace_all_def fullFilterView_def)
  have t: "truthy (versionTag entryB)" by (simp add: entryB_def)
  have n: "runNameFilter fullFilterView" "runName entryBad = ''acme''"
    by (simp_all add: fullFilterView_def entryBad_def)
  note c1 = project_unparseable_time [of entryBad sampleDate fullFilterView sampleStateConverter, THEN conjunct1, rule_format, OF h]
  note c2 = project_unparseable_time [of entryB sampleDate fullFilterView _ lenientDate "''last tuesday''", THEN conjunct2, rule_format, OF t]
  show ?thesis
    using h t c1 c2 by (simp add: n)
qed

section \<open>Normalizing the timestamp\<close>

text \<open>
  Claim C9. For every record, what the grouping loop and the click handler parse is the
  \<^verbatim>\<open>time\<close> string with its spaces replaced by \<^verbatim>\<open>T\<close>, and nothing else:
  \<^item> every record lies in the bucket whose label is built from the date parsed from
    its normalized \<^verbatim>\<open>time\<close>;
  \<^item> for an untagged record (with detection-status and detection-date filters) the
    detection date set is the one rendered from the date parsed from its normalized
    \<^verbatim>\<open>time\<close>;
  \<^item> the parser is consulted at no other string: two parsers that agree on the
    normalized strings give the same buckets and the same filter calls, whatever they
    do on the raw strings;
  \<^item> the normalization keeps the length, turns each space into \<^verbatim>\<open>T\<close> and leaves every
    other character as it is; on a \<^verbatim>\<open>time\<close> made of a date part, one space and a time
    part it replaces exactly that separator.
\<close>

theorem time_normalized_before_parsing:
  "(\<forall>r \<in> set hist.
      \<exists>b. (ToString (getDate (P (replace_all CHR '' '' CHR ''T'' (time r)))) @ '' ''
            @ M (getMonth (P (replace_all CHR '' '' CHR ''T'' (time r)))) @ '', ''
            @ ToString (getFullYear (P (replace_all CHR '' '' CHR ''T'' (time r)))), b)
             \<in> set (historyGroupByDate P M hist) \<and> r \<in> set b)
   \<and> (\<not> truthy (versionTag item) \<and> detectionStatusFilter f = Some stateConverter
        \<and> detectionDateFilter f
      \<longrightarrow> InitFixedDateInterval (formatDate (P (replace_all CHR '' '' CHR ''T'' (time item))))
            \<in> set (snd (onRunHistoryClick P f item)))
   \<and> ((\<forall>r \<in> set hist. P (replace_all CHR '' '' CHR ''T'' (time r))
                          = Q (replace_all CHR '' '' CHR ''T'' (time r)))
      \<longrightarrow> historyGroupByDate P M hist = historyGroupByDate Q M hist
          \<and> (\<forall>r \<in> set hist. onRunHistoryClick P f r = onRunHistoryClick Q f r))
   \<and> length (replace_all CHR '' '' CHR ''T'' s) = length s
   \<and> (\<forall>i < length s. replace_all CHR '' '' CHR ''T'' s ! i
                        = (if s ! i = CHR '' '' then CHR ''T'' else s ! i))
   \<and> (CHR '' '' \<notin> set d \<and> CHR '' '' \<notin> set t
      \<longrightarrow> replace_all CHR '' '' CHR ''T'' (d @ '' '' @ t) = d @ ''T'' @ t)"
proof (intro conjI)
  show "\<forall>r \<in> set hist.
      \<exists>b. (ToString (getDate (P (replace_all CHR '' '' CHR ''T'' (time r)))) @ '' ''
            @ M (getMonth (P (replace_all CHR '' '' CHR ''T'' (time r)))) @ '', ''
            @ ToString (getFullYear (P (replace_all CHR '' '' CHR ''T'' (time r)))), b)
             \<in> set (historyGroupByDate P M hist) \<and> r \<in> set b"
  proof (rule ballI)
    fix r assume r: "r \<in> set hist"
    define L where "L = groupDate P M r"
    define b where "b = filter (\<lambda>x. groupDate P M x = L) hist"
    have k: "groupDate P M r = L" by (simp add: L_def)
    have "\<exists>x \<in> set hist. groupDate P M x = L"
      using r k by (rule bexI [rotated])
    then have "map_of (historyGroupByDate P M hist) L = Some b"
      unfolding b_def historyGroupByDate_map_of by (rule if_P)
    then have m: "(L, b) \<in> set (historyGroupByDate P M hist)"
      by (rule map_of_SomeD)
    have rb: "r \<in> set b"
      unfolding b_def using r k by simp
    have L: "L = ToString (getDate (P (replace_all CHR '' '' CHR ''T'' (time r)))) @ '' ''
            @ M (getMonth (P (replace_all CHR '' '' CHR ''T'' (time r)))) @ '', ''
            @ ToString (getFullYear (P (replace_all CHR '' '' CHR ''T'' (time r))))"
      unfolding L_def groupDate_def Let_def by (rule refl)
    show "\<exists>b. (ToString (getDate (P (replace_all CHR '' '' CHR ''T'' (time r)))) @ '' ''
            @ M (getMonth (P (replace_all CHR '' '' CHR ''T'' (time r)))) @ '', ''
            @ ToString (getFullYear (P (replace_all CHR '' '' CHR ''T'' (time r)))), b)
             \<in> set (historyGroupByDate P M hist) \<and> r \<in> set b"
      using m rb unfolding L by (intro exI conjI)
  qed
next
  show "\<not> truthy (versionTag item) \<and> detectionStatusFilter f = Some stateConverter
        \<and> detectionDateFilter f
      \<longrightarrow> InitFixedDateInterval (formatDate (P (replace_all CHR '' '' CHR ''T'' (time item))))
            \<in> set (snd (onRunHistoryClick P f item))"
  proof (rule impI)
    assume a: "\<not> truthy (versionTag item) \<and> detectionStatusFilter f = Some stateConverter
        \<and> detectionDateFilter f"
    then have "\<not> truthy (versionTag item)" "detectionStatusFilter f = Some stateConverter"
      "detectionDateFilter f"
      by simp_all
    then show "InitFixedDateInterval (formatDate (P (replace_all CHR '' '' CHR ''T'' (time item))))
            \<in> set (snd (onRunHistoryClick P f item))"
      by (simp add: onRunHistoryClick_untagged)
  qed
next
  show "(\<forall>r \<in> set hist. P (replace_all CHR '' '' CHR ''T'' (time r))
                          = Q (replace_all CHR '' '' CHR ''T'' (time r)))
      \<longrightarrow> historyGroupByDate P M hist = historyGroupByDate Q M hist
          \<and> (\<forall>r \<in> set hist. onRunHistoryClick P f r = onRunHistoryClick Q f r)"
  proof (intro impI conjI)
    assume a: "\<forall>r \<in> set hist. P (replace_all CHR '' '' CHR ''T'' (time r))
                          = Q (replace_all CHR '' '' CHR ''T'' (time r))"
    have agree: "P (replace_all CHR '' '' CHR ''T'' (time r))
                   = Q (replace_all CHR '' '' CHR ''T'' (time r))" if "r \<in> set hist" for r
      using a that by (rule bspec)
    show "historyGroupByDate P M hist = historyGroupByDate Q M hist"
      unfolding historyGroupByDate_def
      by (rule foldl_group_step_cong) (rule groupDate_cong, rule agree)
    show "\<forall>r \<in> set hist. onRunHistoryClick P f r = onRunHistoryClick Q f r"
      by (rule ballI, rule onRunHistoryClick_cong, rule agree)
  qed
next
  show "length (replace_all CHR '' '' CHR ''T'' s) = length s"
    by (simp add: replace_all_def)
next
  show "\<forall>i < length s. replace_all CHR '' '' CHR ''T'' s ! i
                        = (if s ! i = CHR '' '' then CHR ''T'' else s ! i)"
    by (simp add: replace_all_def)
next
  show "CHR '' '' \<notin> set d \<and> CHR '' '' \<notin> set t
      \<longrightarrow> replace_all CHR '' '' CHR ''T'' (d @ '' '' @ t) = d @ ''T'' @ t"
  proof (rule impI)
    assume "CHR '' '' \<notin> set d \<and> CHR '' '' \<notin> set t"
    then have d: "CHR '' '' \<notin> set d" and t: "CHR '' '' \<notin> set t" by simp_all
    show "replace_all CHR '' '' CHR ''T'' (d @ '' '' @ t) = d @ ''T'' @ t"
      by (rule replace_all_separator [OF d t])
  qed
qed

text \<open>
  Claim C9 at the entry of the first scenario, with two parsers that differ on its raw
  \<^verbatim>\<open>time\<close> and agree on the normalized one.
\<close>

theorem time_normalized_before_parsing_witness:
  "(\<exists>b. (ToString (getDate (sampleDate (replace_all CHR '' '' CHR ''T'' (time entryA)))) @ '' ''
          @ sampleMonthName (getMonth (sampleDate (replace_all CHR '' '' CHR ''T'' (time entryA))))
          @ '', ''
          @ ToString (getFullYear (sampleDate (replace_all CHR '' '' CHR ''T'' (time entryA)))), b)
           \<in> set (historyGroupByDate sampleDate sampleMonthName [entryA]) \<and> entryA \<in> set b)
   \<and> InitFixedDateInterval
        (formatDate (sampleDate (replace_all CHR '' '' CHR ''T'' (time entryA))))
        \<in> set (snd (onRunHistoryClick sampleDate fullFilterView entryA))
   \<and> replace_all CHR '' '' CHR ''T'' (time entryA) = ''2024-06-05T10:15:30''
   \<and> sampleDate (time entryA) \<noteq> lenientDate (time entryA)
   \<and> historyGroupByDate sampleDate sampleMonthName [entryA]
       = historyGroupByDate lenientDate sampleMonthName [entryA]
   \<and> onRunHistoryClick sampleDate fullFilterView entryA
       = onRunHistoryClick lenientDate fullFilterView entryA"
proof -
  note c = time_normalized_before_parsing [where P = sampleDate and Q = lenientDate and M = sampleMonthName
      and hist = "[entryA]" and item = entryA and f = fullFilterView
      and stateConverter = sampleStateConverter
      and d = "''2024-06-05''" and t = "''10:15:30''"]
  have mem: "entryA \<in> set [entryA]" by simp
  have g: "\<exists>b. (ToString (getDate (sampleDate (replace_all CHR '' '' CHR ''T'' (time entryA)))) @ '' ''
          @ sampleMonthName (getMonth (sampleDate (replace_all CHR '' '' CHR ''T'' (time entryA))))
          @ '', ''
          @ ToString (getFullYear (sampleDate (replace_all CHR '' '' CHR ''T'' (time entryA)))), b)
           \<in> set (historyGroupByDate sampleDate sampleMonthName [entryA]) \<and> entryA \<in> set b"
    by (rule c [THEN conjunct1, THEN bspec, OF mem])
  have caps: "\<not> truthy (versionTag entryA)
      \<and> detectionStatusFilter fullFilterView = Some sampleStateConverter
      \<and> detectionDateFilter fullFilterView"
    by (simp add: entryA_def fullFilterView_def)
  have k: "InitFixedDateInterval
        (formatDate (sampleDate (replace_all CHR '' '' CHR ''T'' (time entryA))))
        \<in> set (snd (onRunHistoryClick sampleDate fullFilterView entryA))"
    by (rule c [THEN conjunct2, THEN conjunct1, THEN mp, OF caps])
  have nosp: "CHR '' '' \<notin> set ''2024-06-05'' \<and> CHR '' '' \<notin> set ''10:15:30''"
    by simp
  have "replace_all CHR '' '' CHR ''T'' (''2024-06-05'' @ '' '' @ ''10:15:30'')
          = ''2024-06-05'' @ ''T'' @ ''10:15:30''"
    by (rule c [THEN conjunct2, THEN conjunct2, THEN conjunct2, THEN conjunct2, THEN conjunct2,
          THEN mp, OF nosp])
  then have nrm: "replace_all CHR '' '' CHR ''T'' (time entryA) = ''2024-06-05T10:15:30''"
    by (simp add: entryA_def)
  have agree: "\<forall>r \<in> set [entryA]. sampleDate (replace_all CHR '' '' CHR ''T'' (time r))
                          = lenientDate (replace_all CHR '' '' CHR ''T'' (time r))"
    by (simp add: nrm sampleDate_def lenientDate_def)
  note e = c [THEN conjunct2, THEN conjunct2, THEN conjunct1, THEN mp, OF agree]
  have ne: "sampleDate (time entryA) \<noteq> lenientDate (time entryA)"
    by (simp add: entryA_def sampleDate_def lenientDate_def)
  show ?thesis
    by (rule conjI [OF g conjI [OF k conjI [OF nrm conjI [OF ne
          conjI [OF e [THEN conjunct1] e [THEN conjunct2, THEN bspec, OF mem]]]]]])
qed

section \<open>Rendering the detection date\<close>

text \<open>
  Claim C2 fails on the code at 10:15:59.900: \<^verbatim>\<open>_formatDate\<close> adds one to the seconds
  and carries nothing, so the seconds field reads 60 and the minute stays 15.
\<close>

theorem formatDate_seconds_carry_missing:
  "wellformed_Date (LocalTime 2024 5 5 10 15 59 900)
   \<and> formatDate (LocalTime 2024 5 5 10 15 59 900) = ''2024-06-05 10:15:60''"
  by (simp add: formatDate_def digits.simps)

text \<open>
  Claim C3 fails on the code at 09:05:03: month and day are padded to two digits, hours,
  minutes and seconds are joined as plain numbers.
\<close>

theorem formatDate_time_fields_unpadded:
  "wellformed_Date (LocalTime 2024 5 5 9 5 3 0)
   \<and> formatDate (LocalTime 2024 5 5 9 5 3 0) = ''2024-06-05 9:5:3''"
  by (simp add: formatDate_def digits.simps)

end
